theory Spec2Isabelle
  imports Complex_Main "HOL-Library.Word"
begin

unbundle bit_operations_syntax

section \<open>Bytes and Python errors\<close>

text \<open>
  A Python \<open>bytes\<close> object is a sequence of integers in \<open>range(256)\<close>: a list of
  8-bit words. The encoders receive Python integers (the callers pass \<open>int(value)\<close> of a
  slider and \<open>int(text)\<close> of an input field), modelled as \<open>int\<close>.
  The exceptions the modelled code can raise are values of \<open>error\<close>; a function that can
  raise returns \<open>error + 'a\<close>, with \<open>Inl\<close> for the exception.
\<close>

type_synonym byte = "8 word"

datatype error = ValueError | IndexError | OverflowError

text \<open>Sequencing of two computations of which the first may raise.\<close>

definition bind_err :: "error + 'a \<Rightarrow> ('a \<Rightarrow> error + 'b) \<Rightarrow> error + 'b" where
  "bind_err m f = (case m of Inl e \<Rightarrow> Inl e | Inr x \<Rightarrow> f x)"

text \<open>
  \<open>bytes([x])\<close>: the one-element byte string of the integer \<open>x\<close>; Python raises
  ValueError when \<open>x\<close> is not in \<open>range(256)\<close>.
\<close>

definition bytes_of :: "int \<Rightarrow> error + byte list" where
  "bytes_of x = (if 0 \<le> x \<and> x < 256 then Inr [word_of_int x] else Inl ValueError)"

section \<open>RobotProtocol\<close>

subsection \<open>calculate_checksum\<close>

text \<open>
  The loop \<open>for byte in checksum_bytes: checksum = (checksum + byte) & 0xFF\<close> is a fold
  from 0 over the bytes, the accumulator a Python integer.
\<close>

definition calculate_checksum :: "byte list \<Rightarrow> int" where
  "calculate_checksum data_bytes =
     (if data_bytes = [] then 0
      else
        let checksum_bytes =
              (if length data_bytes \<ge> 2 \<and> data_bytes ! 0 = 0xAA \<and> data_bytes ! 1 = 0x55
               then drop 2 data_bytes
               else data_bytes)
        in fold (\<lambda>byte checksum. (checksum + uint byte) AND 0xFF) checksum_bytes 0)"

subsection \<open>create_movement_command\<close>

text \<open>The dictionary \<open>commands\<close> of the direction codes.\<close>

definition commands :: "int \<rightharpoonup> int" where
  "commands = [1 \<mapsto> 0x01, 2 \<mapsto> 0x02, 3 \<mapsto> 0x03, 4 \<mapsto> 0x04, 5 \<mapsto> 0x05, 6 \<mapsto> 0x06]"

text \<open>
  The result is \<open>Inr None\<close> where the source returns \<open>None\<close> (a direction that is not a
  key of \<open>commands\<close>), \<open>Inl ValueError\<close> where \<open>bytes([id_byte])\<close> raises.
\<close>

definition create_movement_command :: "int \<Rightarrow> int \<Rightarrow> error + byte list option" where
  "create_movement_command direction id_byte =
     (case commands direction of
        None \<Rightarrow> Inr None
      | Some code \<Rightarrow>
          bind_err (bytes_of id_byte) (\<lambda>idb.
          bind_err (bytes_of code) (\<lambda>dirb.
            let frame_data = [0x04, 0x80] @ idb @ dirb;
                checksum = calculate_checksum ([0xAA, 0x55] @ frame_data)
            in bind_err (bytes_of checksum) (\<lambda>ck.
                 Inr (Some ([0xAA, 0x55] @ frame_data @ ck))))))"

subsection \<open>create_speed_command\<close>

text \<open>
  \<open>int(speed_rpm)\<close> and \<open>int(accel_time)\<close> are the identity on the integers the callers
  pass. The three \<open>bytes([...])\<close> are evaluated from left to right.
\<close>

definition create_speed_command :: "int \<Rightarrow> int \<Rightarrow> int \<Rightarrow> error + byte list" where
  "create_speed_command speed_rpm accel_time id_byte =
     (let speed_rpm = max 0 (min 115 speed_rpm);
          accel_time = max 0 (min 255 accel_time)
      in bind_err (bytes_of id_byte) (\<lambda>idb.
         bind_err (bytes_of speed_rpm) (\<lambda>speedb.
         bind_err (bytes_of accel_time) (\<lambda>accelb.
           let frame_data = [0x07, 0x81, 0x01] @ idb @ speedb @ accelb;
               checksum = calculate_checksum ([0xAA, 0x55] @ frame_data)
           in bind_err (bytes_of checksum) (\<lambda>ck.
                Inr ([0xAA, 0x55] @ frame_data @ ck))))))"

subsection \<open>create_angle_command\<close>

text \<open>
  The angle is any Python number: an integer (what the slider handler passes) or a
  float, which is a finite value, an infinity or a NaN. A finite float is modelled as
  the real it denotes.
\<close>

datatype py_float = Finite real | Pos_Inf | Neg_Inf | NaN

datatype number = Py_Int int | Py_Float py_float

text \<open>
  \<open>float(angle_degrees)\<close> is the identity on a float. On an integer it raises
  OverflowError when the integer rounds to a magnitude of \<open>2 ^ 1024\<close> or more, that is
  from \<open>2 ^ 1024 - 2 ^ 970\<close> on. Below that it is exact up to \<open>2 ^ 53\<close> and rounds above,
  where the rounded value stays above 180 in magnitude, so that the clamp that follows
  gives the same result as for the integer itself.
\<close>

definition float_overflows :: "int \<Rightarrow> bool" where
  "float_overflows n \<longleftrightarrow> \<bar>n\<bar> \<ge> 2 ^ 1024 - 2 ^ 970"

fun float_of :: "number \<Rightarrow> error + py_float" where
  "float_of (Py_Int n) =
     (if float_overflows n then Inl OverflowError else Inr (Finite (real_of_int n)))"
| "float_of (Py_Float x) = Inr x"

text \<open>
  \<open>x < y\<close> on floats: false whenever an operand is a NaN. Python's \<open>min(a, b)\<close> is \<open>b\<close> when
  \<open>b < a\<close> and \<open>a\<close> otherwise; \<open>max(a, b)\<close> is \<open>b\<close> when \<open>b > a\<close> and \<open>a\<close> otherwise.
\<close>

fun float_less :: "py_float \<Rightarrow> py_float \<Rightarrow> bool" where
  "float_less (Finite a) (Finite b) = (a < b)"
| "float_less (Finite a) Pos_Inf = True"
| "float_less Neg_Inf (Finite b) = True"
| "float_less Neg_Inf Pos_Inf = True"
| "float_less x y = False"

definition py_min :: "py_float \<Rightarrow> py_float \<Rightarrow> py_float" where
  "py_min a b = (if float_less b a then b else a)"

definition py_max :: "py_float \<Rightarrow> py_float \<Rightarrow> py_float" where
  "py_max a b = (if float_less a b then b else a)"

text \<open>
  \<open>x * 180.0 / 180.0\<close>. The code applies it to the clamped angle, a double in
  \<open>[0, 180]\<close>. There the two roundings of the double arithmetic never carry the value
  across a whole number (they are monotone, exact on whole numbers, and return the
  largest double below a whole number \<open>k \<le> 180\<close> to itself), so the whole part that
  \<open>int\<close> takes afterwards is that of the exact quotient, which is what is modelled.
\<close>

fun times_180_over_180 :: "py_float \<Rightarrow> py_float" where
  "times_180_over_180 (Finite r) = Finite (r * 180 / 180)"
| "times_180_over_180 x = x"

text \<open>
  \<open>int(x)\<close> of a float truncates towards zero; it raises OverflowError on an infinity
  and ValueError on a NaN.
\<close>

fun int_of_float :: "py_float \<Rightarrow> error + int" where
  "int_of_float (Finite r) = Inr (if 0 \<le> r then \<lfloor>r\<rfloor> else \<lceil>r\<rceil>)"
| "int_of_float Pos_Inf = Inl OverflowError"
| "int_of_float Neg_Inf = Inl OverflowError"
| "int_of_float NaN = Inl ValueError"

definition create_angle_command :: "number \<Rightarrow> int \<Rightarrow> error + byte list" where
  "create_angle_command angle_degrees id_byte =
     bind_err (float_of angle_degrees) (\<lambda>angle_degrees.
       let angle_degrees = py_max (Finite 0) (py_min (Finite 180) angle_degrees)
       in bind_err (int_of_float (times_180_over_180 angle_degrees)) (\<lambda>angle_byte.
            let angle_byte = max 0 (min 255 angle_byte)
            in bind_err (bytes_of id_byte) (\<lambda>idb.
               bind_err (bytes_of angle_byte) (\<lambda>angleb.
                 let frame_data = [0x07, 0x81, 0x02] @ idb @ angleb @ [0x00];
                     checksum = calculate_checksum ([0xAA, 0x55] @ frame_data)
                 in bind_err (bytes_of checksum) (\<lambda>ck.
                      Inr ([0xAA, 0x55] @ frame_data @ ck))))))"

subsection \<open>decode_angle_from_byte and format_hex\<close>

definition decode_angle_from_byte :: "byte \<Rightarrow> real" where
  "decode_angle_from_byte angle_byte = real (unat angle_byte) * 180 / 180"

text \<open>\<open>f'{b:02X}'\<close>: the two upper-case hexadecimal digits of a byte.\<close>

definition hex_digit :: "nat \<Rightarrow> char" where
  "hex_digit n = ''0123456789ABCDEF'' ! (n mod 16)"

definition hex_byte :: "byte \<Rightarrow> string" where
  "hex_byte b = [hex_digit (unat b div 16), hex_digit (unat b mod 16)]"

fun join_spaces :: "string list \<Rightarrow> string" where
  "join_spaces [] = []"
| "join_spaces [s] = s"
| "join_spaces (s # t # ts) = s @ '' '' @ join_spaces (t # ts)"

definition format_hex :: "byte list \<Rightarrow> string" where
  "format_hex data_bytes = join_spaces (map hex_byte data_bytes)"

section \<open>RobotMobileApp.decode_response\<close>

text \<open>
  The decoder returns \<open>None\<close> or a message built from fixed texts and the decoded bytes.
  The message is modelled by its parts: one constructor of \<open>response\<close> for each of the
  three f-strings, with the interpolated values as arguments. The label texts of the two
  dictionaries are the constructors of \<open>id_name\<close> and \<open>direction_name\<close>;
  \<open>Id_Number b\<close> is the default \<open>f"ID={id_byte}"\<close> and \<open>Unknown_Direction\<close> the default
  text of \<open>direction_codes.get\<close>.
\<close>

datatype id_name = Whole_Car | Hub1 | Hub2 | Hub3 | Hub4 | Id_Number byte

datatype direction_name =
  Forward_Ack | Backward_Ack | Left_Ack | Right_Ack | Brake_Ack | Stop_Ack | Unknown_Direction

datatype response =
  Movement_Response id_name direction_name
| Speed_Response id_name byte byte
| Angle_Response real byte

definition direction_codes :: "byte \<rightharpoonup> direction_name" where
  "direction_codes =
     [0x01 \<mapsto> Forward_Ack, 0x02 \<mapsto> Backward_Ack, 0x03 \<mapsto> Left_Ack,
      0x04 \<mapsto> Right_Ack, 0x05 \<mapsto> Brake_Ack, 0x06 \<mapsto> Stop_Ack]"

definition id_names :: "byte \<rightharpoonup> id_name" where
  "id_names = [0 \<mapsto> Whole_Car, 1 \<mapsto> Hub1, 2 \<mapsto> Hub2, 3 \<mapsto> Hub3, 4 \<mapsto> Hub4]"

text \<open>\<open>direction_codes.get(direction, ...)\<close> and \<open>id_names.get(id_byte, f"ID={id_byte}")\<close>.\<close>

definition direction_codes_get :: "byte \<Rightarrow> direction_name" where
  "direction_codes_get direction =
     (case direction_codes direction of Some n \<Rightarrow> n | None \<Rightarrow> Unknown_Direction)"

definition id_names_get :: "byte \<Rightarrow> id_name" where
  "id_names_get id_byte =
     (case id_names id_byte of Some n \<Rightarrow> n | None \<Rightarrow> Id_Number id_byte)"

text \<open>
  \<open>data[i]\<close> raises IndexError out of range. Python's \<open>and\<close> and \<open>or\<close> evaluate their
  right operand only when the left one does not decide, so an operand that would raise
  is not reached then.
\<close>

definition byte_at :: "byte list \<Rightarrow> nat \<Rightarrow> error + byte" where
  "byte_at data i = (if i < length data then Inr (data ! i) else Inl IndexError)"

definition and_also :: "error + bool \<Rightarrow> error + bool \<Rightarrow> error + bool" where
  "and_also p q = bind_err p (\<lambda>b. if b then q else Inr False)"

definition or_else :: "error + bool \<Rightarrow> error + bool \<Rightarrow> error + bool" where
  "or_else p q = bind_err p (\<lambda>b. if b then Inr True else q)"

definition eq_at :: "byte list \<Rightarrow> nat \<Rightarrow> byte \<Rightarrow> error + bool" where
  "eq_at data i v = bind_err (byte_at data i) (\<lambda>b. Inr (b = v))"

definition ne_at :: "byte list \<Rightarrow> nat \<Rightarrow> byte \<Rightarrow> error + bool" where
  "ne_at data i v = bind_err (byte_at data i) (\<lambda>b. Inr (b \<noteq> v))"

definition decode_response :: "byte list \<Rightarrow> error + response option" where
  "decode_response data =
     (if length data < 6 then Inr None
      else
        bind_err (or_else (ne_at data 0 0xAA) (ne_at data 1 0x55)) (\<lambda>bad_header.
        if bad_header then Inr None
        else
          let hex_str = format_hex data in
          bind_err (and_also (Inr (length data = 6))
                   (and_also (eq_at data 2 0x04) (eq_at data 3 0x80))) (\<lambda>is_movement.
          if is_movement then
            bind_err (if length data > 5 then byte_at data 5 else Inr 0) (\<lambda>direction.
            bind_err (if length data > 4 then byte_at data 4 else Inr 0) (\<lambda>id_byte.
              Inr (Some (Movement_Response (id_names_get id_byte)
                                           (direction_codes_get direction)))))
          else
            bind_err (and_also (Inr (length data = 8))
                     (and_also (eq_at data 2 0x07)
                     (and_also (eq_at data 3 0x81) (eq_at data 4 0x01)))) (\<lambda>is_speed.
            if is_speed then
              bind_err (byte_at data 5) (\<lambda>id_byte.
              bind_err (byte_at data 6) (\<lambda>speed.
              bind_err (byte_at data 7) (\<lambda>accel.
                Inr (Some (Speed_Response (id_names_get id_byte) speed accel)))))
            else
              bind_err (and_also (Inr (length data = 8))
                       (and_also (eq_at data 2 0x07)
                       (and_also (eq_at data 3 0x81) (eq_at data 4 0x02)))) (\<lambda>is_angle.
              if is_angle then
                bind_err (byte_at data 6) (\<lambda>angle_byte.
                  Inr (Some (Angle_Response (decode_angle_from_byte angle_byte) angle_byte)))
              else Inr None)))))"

section \<open>TCPClient\<close>

text \<open>
  The client object is a record of its fields. What the methods do to the outside (the
  calls on the socket, the start of the receive thread, the calls of the callback) is
  appended to a trace, so that a method that leaves the trace as it was has touched
  nothing. What the outside answers is a parameter of each method: every call that can
  raise has an \<open>outcome\<close>, either \<open>Returns v\<close> or \<open>Raises e\<close>.
\<close>

type_synonym sock = nat

datatype callback = Callback_Fn nat

datatype thread = Thread nat

text \<open>
  The exceptions the handlers tell apart: \<open>socket.timeout\<close>, \<open>ConnectionRefusedError\<close>
  and any other one; each carries the text of \<open>str(e)\<close>.
\<close>

datatype exn = Socket_Timeout string | Connection_Refused string | Other_Exception string

datatype 'a outcome = Returns 'a | Raises exn

fun str :: "exn \<Rightarrow> string" where
  "str (Socket_Timeout m) = m"
| "str (Connection_Refused m) = m"
| "str (Other_Exception m) = m"

fun is_timeout :: "exn \<Rightarrow> bool" where
  "is_timeout (Socket_Timeout m) = True"
| "is_timeout (Connection_Refused m) = False"
| "is_timeout (Other_Exception m) = False"

datatype effect =
  Create sock
| Settimeout sock real
| Connect_To sock string int
| Close sock
| Sendall sock "byte list"
| Recv sock nat
| Start thread
| Call callback "byte list"

type_synonym trace = "effect list"

text \<open>
  The messages returned with the success flag: one constructor for each text of the
  source (connected, connect timeout, connection refused, connect failed with
  \<open>str(e)\<close>, not connected, sent, send failed with \<open>str(e)\<close>).
\<close>

datatype message =
  Msg_Connected
| Msg_Connect_Timeout
| Msg_Connect_Refused
| Msg_Connect_Failed string
| Msg_Not_Connected
| Msg_Sent
| Msg_Send_Failed string

record tcp_client =
  socket :: "sock option"
  is_connected :: bool
  receive_thread :: "thread option"
  receive_callback :: "callback option"
  host :: string
  port :: int

subsection \<open>__init__ and set_callback\<close>

definition init :: "callback option \<Rightarrow> tcp_client" where
  "init on_receive_callback =
     \<lparr>socket = None, is_connected = False, receive_thread = None,
      receive_callback = on_receive_callback, host = ''192.168.0.12'', port = 12345\<rparr>"

definition set_callback :: "callback option \<Rightarrow> tcp_client \<Rightarrow> tcp_client" where
  "set_callback cb c = c\<lparr>receive_callback := cb\<rparr>"

subsection \<open>connect\<close>

text \<open>
  The calls of \<open>connect\<close> that can raise are the creation of the socket, its
  \<open>connect\<close> and the start of the thread; the three handlers of the \<open>try\<close> pick the
  message by the class of the exception.
\<close>

record connect_env =
  create_outcome :: "sock outcome"
  connect_outcome :: "unit outcome"
  new_thread :: thread
  start_outcome :: "unit outcome"

fun connect_failure :: "exn \<Rightarrow> bool \<times> message" where
  "connect_failure (Socket_Timeout m) = (False, Msg_Connect_Timeout)"
| "connect_failure (Connection_Refused m) = (False, Msg_Connect_Refused)"
| "connect_failure (Other_Exception m) = (False, Msg_Connect_Failed m)"

definition connect ::
  "connect_env \<Rightarrow> string \<Rightarrow> int \<Rightarrow> tcp_client \<times> trace \<Rightarrow> (bool \<times> message) \<times> tcp_client \<times> trace"
where
  "connect env h p cw =
     (case cw of (c, w) \<Rightarrow>
      (case create_outcome env of
         Raises e \<Rightarrow> (connect_failure e, c, w)
       | Returns s \<Rightarrow>
           let c1 = c\<lparr>socket := Some s\<rparr>;
               w1 = w @ [Create s, Settimeout s 5, Connect_To s h p]
           in (case connect_outcome env of
                 Raises e \<Rightarrow> (connect_failure e, c1, w1)
               | Returns u \<Rightarrow>
                   let c2 = c1\<lparr>is_connected := True, host := h, port := p,
                                receive_thread := Some (new_thread env)\<rparr>;
                       w2 = w1 @ [Settimeout s (1 / 2), Start (new_thread env)]
                   in (case start_outcome env of
                         Raises e \<Rightarrow> (connect_failure e, c2, w2)
                       | Returns u \<Rightarrow> ((True, Msg_Connected), c2, w2)))))"

subsection \<open>disconnect\<close>

text \<open>
  \<open>if self.socket:\<close> holds for every socket object. An exception of \<open>close\<close> is
  swallowed by the bare \<open>except: pass\<close>, so both outcomes continue alike.
\<close>

definition disconnect :: "unit outcome \<Rightarrow> tcp_client \<times> trace \<Rightarrow> tcp_client \<times> trace" where
  "disconnect close_outcome cw =
     (case cw of (c, w) \<Rightarrow>
      (case socket c of
         None \<Rightarrow> (c, w)
       | Some s \<Rightarrow>
           let c1 = c\<lparr>is_connected := False\<rparr>;
               w1 = w @ [Close s]
           in (case close_outcome of
                 Returns u \<Rightarrow> (c1\<lparr>socket := None\<rparr>, w1)
               | Raises e \<Rightarrow> (c1\<lparr>socket := None\<rparr>, w1))))"

subsection \<open>send_data\<close>

definition send_data ::
  "unit outcome \<Rightarrow> byte list \<Rightarrow> tcp_client \<times> trace \<Rightarrow> (bool \<times> message) \<times> tcp_client \<times> trace"
where
  "send_data sendall_outcome data_bytes cw =
     (case cw of (c, w) \<Rightarrow>
      (if \<not> is_connected c \<or> socket c = None then ((False, Msg_Not_Connected), c, w)
       else
         (case socket c of
            None \<Rightarrow> ((False, Msg_Not_Connected), c, w)
          | Some s \<Rightarrow>
              (case sendall_outcome of
                 Returns u \<Rightarrow> ((True, Msg_Sent), c, w @ [Sendall s data_bytes])
               | Raises e \<Rightarrow>
                   ((False, Msg_Send_Failed (str e)), c\<lparr>is_connected := False\<rparr>,
                    w @ [Sendall s data_bytes])))))"

subsection \<open>_receive_loop\<close>

text \<open>
  One pass of the loop body receives the outcome of \<open>recv(1024)\<close> and, when the callback
  is called, the outcome of that call. \<open>socket.timeout\<close> continues the loop, every other
  exception breaks it, wherever in the \<open>try\<close> it was raised: also the AttributeError of
  \<open>self.socket.recv\<close> when the socket field is \<open>None\<close> by then. The body reads the
  fields of the client and assigns none.
\<close>

record iteration_env =
  recv_outcome :: "byte list outcome"
  callback_outcome :: "unit outcome"

datatype control = Continue | Break

definition after_exception :: "exn \<Rightarrow> control" where
  "after_exception e = (if is_timeout e then Continue else Break)"

definition loop_body :: "iteration_env \<Rightarrow> tcp_client \<times> trace \<Rightarrow> control \<times> tcp_client \<times> trace" where
  "loop_body env cw =
     (case cw of (c, w) \<Rightarrow>
      (case socket c of
         None \<Rightarrow> (Break, c, w)
       | Some s \<Rightarrow>
           (case recv_outcome env of
              Raises e \<Rightarrow> (after_exception e, c, w @ [Recv s 1024])
            | Returns data \<Rightarrow>
                if data = [] then (Continue, c, w @ [Recv s 1024])
                else
                  (case receive_callback c of
                     None \<Rightarrow> (Continue, c, w @ [Recv s 1024])
                   | Some cb \<Rightarrow>
                       (case callback_outcome env of
                          Returns u \<Rightarrow> (Continue, c, w @ [Recv s 1024, Call cb data])
                        | Raises e \<Rightarrow>
                            (after_exception e, c, w @ [Recv s 1024, Call cb data]))))))"

text \<open>
  The loop may run for ever (a peer that only times out), so it runs on a script of
  passes: \<open>None\<close> when the script ends with the loop still running, \<open>Some\<close> of the
  client and the trace when the loop has ended.
\<close>

fun receive_loop :: "iteration_env list \<Rightarrow> tcp_client \<times> trace \<Rightarrow> (tcp_client \<times> trace) option" where
  "receive_loop [] (c, w) =
     (if is_connected c \<and> socket c \<noteq> None then None else Some (c, w))"
| "receive_loop (env # envs) (c, w) =
     (if is_connected c \<and> socket c \<noteq> None
      then (case loop_body env (c, w) of
              (Continue, cw') \<Rightarrow> receive_loop envs cw'
            | (Break, cw') \<Rightarrow> Some cw')
      else Some (c, w))"

section \<open>Properties of the encoders\<close>

subsection \<open>The checksum is a sum modulo 256\<close>

lemma and_255_mod: "(x::int) AND 0xFF = x mod 256"
proof -
  have "(x::int) AND mask 8 = x mod 2 ^ 8"
    by (simp only: take_bit_eq_mask [symmetric] take_bit_eq_mod)
  then show ?thesis by (simp add: mask_eq_exp_minus_1)
qed

lemma fold_checksum_mod:
  assumes "0 \<le> acc" and "acc < 256"
  shows "fold (\<lambda>byte checksum. (checksum + uint byte) AND 0xFF) bs acc
         = (acc + sum_list (map uint bs)) mod 256"
  using assms
proof (induction bs arbitrary: acc)
  case Nil
  then show ?case by simp
next
  case (Cons b bs)
  have "fold (\<lambda>byte checksum. (checksum + uint byte) AND 0xFF) (b # bs) acc
       = fold (\<lambda>byte checksum. (checksum + uint byte) AND 0xFF) bs ((acc + uint b) mod 256)"
    by (simp add: and_255_mod)
  also have "\<dots> = ((acc + uint b) mod 256 + sum_list (map uint bs)) mod 256"
    by (rule Cons.IH) simp_all
  also have "\<dots> = (acc + sum_list (map uint (b # bs))) mod 256"
    by (simp add: mod_add_left_eq add.assoc)
  finally show ?case .
qed

lemma take2_header_iff:
  "take 2 data = [a, b] \<longleftrightarrow> length data \<ge> 2 \<and> data ! 0 = a \<and> data ! 1 = b"
proof (cases data)
  case Nil
  then show ?thesis by simp
next
  case (Cons x xs)
  then show ?thesis by (cases xs) auto
qed

lemma calculate_checksum_sum:
  "calculate_checksum data =
     sum_list (map uint (if take 2 data = [0xAA, 0x55] then drop 2 data else data)) mod 256"
proof (cases "data = []")
  case True
  then show ?thesis by (simp add: calculate_checksum_def)
next
  case False
  then show ?thesis
    unfolding calculate_checksum_def Let_def take2_header_iff
    by (simp add: fold_checksum_mod)
qed

lemma calculate_checksum_range:
  "0 \<le> calculate_checksum data \<and> calculate_checksum data < 256"
  by (simp add: calculate_checksum_sum)

lemma bytes_of_checksum:
  "bytes_of (calculate_checksum data) = Inr [word_of_int (calculate_checksum data)]"
  using calculate_checksum_range [of data] by (simp add: bytes_of_def)

lemma uint_byte_of_int: "0 \<le> x \<Longrightarrow> x < 256 \<Longrightarrow> uint (word_of_int x :: byte) = x"
  by (simp add: uint_word_of_int take_bit_eq_mod)

lemma uint_checksum_byte:
  "uint (word_of_int (calculate_checksum data) :: byte) = calculate_checksum data"
  using calculate_checksum_range [of data] by (simp add: uint_byte_of_int)

text \<open>
  C5: on a byte sequence that begins with \<open>AA 55\<close>, \<open>calculate_checksum\<close> is the sum of
  the bytes after the first two, modulo 256; on any other byte sequence (the empty one
  and those shorter than two bytes included) it is the sum of all the bytes, modulo 256.
\<close>

theorem calculate_checksum_header_rule:
  "(take 2 data = [0xAA, 0x55] \<longrightarrow>
      calculate_checksum data = sum_list (map uint (drop 2 data)) mod 256) \<and>
   (take 2 data \<noteq> [0xAA, 0x55] \<longrightarrow>
      calculate_checksum data = sum_list (map uint data) mod 256)"
  by (simp add: calculate_checksum_sum)

text \<open>Both branches at concrete inputs: a frame with the header, and a body without it.\<close>

theorem calculate_checksum_header_rule_witness:
  "take 2 [0xAA, 0x55, 0x04, 0x80, 0x00, 0x01 :: byte] = [0xAA, 0x55] \<and>
   calculate_checksum [0xAA, 0x55, 0x04, 0x80, 0x00, 0x01] = 0x85 \<and>
   take 2 [0x04, 0x80, 0xFF, 0x01 :: byte] \<noteq> [0xAA, 0x55] \<and>
   calculate_checksum [0x04, 0x80, 0xFF, 0x01] = 0x84"
  using calculate_checksum_header_rule [of "[0xAA, 0x55, 0x04, 0x80, 0x00, 0x01]"]
    calculate_checksum_header_rule [of "[0x04, 0x80, 0xFF, 0x01]"]
  by simp

subsection \<open>Movement frames\<close>

lemma commands_valid: "direction \<in> {1..6} \<Longrightarrow> commands direction = Some direction"
proof -
  assume "direction \<in> {1..6}"
  then have "direction = 1 \<or> direction = 2 \<or> direction = 3 \<or>
             direction = 4 \<or> direction = 5 \<or> direction = 6"
    by auto
  then show ?thesis by (auto simp: commands_def)
qed

lemma create_movement_command_frame:
  assumes "direction \<in> {1..6}" and "0 \<le> id_byte" and "id_byte < 256"
  shows "create_movement_command direction id_byte =
           Inr (Some [0xAA, 0x55, 0x04, 0x80, word_of_int id_byte, word_of_int direction,
                      word_of_int (calculate_checksum
                        [0xAA, 0x55, 0x04, 0x80, word_of_int id_byte, word_of_int direction])])"
  using assms
  by (simp add: create_movement_command_def commands_valid bytes_of_def bind_err_def
      bytes_of_checksum [unfolded bytes_of_def] Let_def)

text \<open>
  C1: for a direction in 1..6 and an id in 0..4, \<open>create_movement_command\<close> returns a
  frame of exactly 7 bytes that starts with \<open>AA 55\<close>, has LEN \<open>04\<close> at index 2 and TYPE
  \<open>80\<close> at index 3, and whose last byte (index 6) is \<open>calculate_checksum\<close> of the bytes
  at indices 2 to 5 of that frame.
\<close>

theorem create_movement_command_layout:
  assumes "direction \<in> {1..6}" and "id_byte \<in> {0..4}"
  shows "\<exists>frame. create_movement_command direction id_byte = Inr (Some frame) \<and>
           length frame = 7 \<and> frame ! 0 = 0xAA \<and> frame ! 1 = 0x55 \<and>
           frame ! 2 = 0x04 \<and> frame ! 3 = 0x80 \<and>
           uint (frame ! 6) = calculate_checksum (take 4 (drop 2 frame))"
proof -
  from assms(2) have id: "0 \<le> id_byte" "id_byte < 256" by simp_all
  let ?body = "[0x04, 0x80, word_of_int id_byte, word_of_int direction] :: byte list"
  have same: "calculate_checksum ([0xAA, 0x55] @ ?body) = calculate_checksum ?body"
    by (simp add: calculate_checksum_sum)
  show ?thesis
    using create_movement_command_frame [OF assms(1) id] same
    by (simp add: uint_checksum_byte)
qed

text \<open>The layout at direction 3 (turn left) and id 2.\<close>

theorem create_movement_command_layout_witness:
  "(3::int) \<in> {1..6} \<and> (2::int) \<in> {0..4} \<and>
   (\<exists>frame. create_movement_command 3 2 = Inr (Some frame) \<and>
           length frame = 7 \<and> frame ! 0 = 0xAA \<and> frame ! 1 = 0x55 \<and>
           frame ! 2 = 0x04 \<and> frame ! 3 = 0x80 \<and>
           uint (frame ! 6) = calculate_checksum (take 4 (drop 2 frame)))"
proof -
  have d: "(3::int) \<in> {1..6}" and i: "(2::int) \<in> {0..4}" by simp_all
  from create_movement_command_layout [OF d i] d i show ?thesis by blast
qed

text \<open>
  C4, as amended: \<open>create_movement_command(1, 0x00)\<close> returns exactly the 7 bytes
  \<open>AA 55 04 80 00 01 85\<close>; the checksum byte is \<open>04 + 80 + 00 + 01 = 85\<close>
  (hexadecimal).
\<close>

theorem create_movement_command_example_value:
  "create_movement_command 1 0x00 = Inr (Some [0xAA, 0x55, 0x04, 0x80, 0x00, 0x01, 0x85])"
  by (simp add: create_movement_command_def commands_def bytes_of_def bind_err_def
      calculate_checksum_def)

text \<open>The frame is not the one that ends in \<open>86\<close>.\<close>

theorem create_movement_command_example_counterexample:
  "create_movement_command 1 0x00 \<noteq> Inr (Some [0xAA, 0x55, 0x04, 0x80, 0x00, 0x01, 0x86])"
  by (simp add: create_movement_command_def commands_def bytes_of_def bind_err_def
      calculate_checksum_def)

subsection \<open>Speed frames\<close>

lemma clamp_byte:
  "0 \<le> max 0 (min 115 (s::int)) \<and> max 0 (min 115 s) < 256"
  "0 \<le> max 0 (min 255 (a::int)) \<and> max 0 (min 255 a) < 256"
  by auto

lemma create_speed_command_frame:
  assumes "0 \<le> id_byte" and "id_byte < 256"
  shows "create_speed_command speed_rpm accel_time id_byte =
           Inr [0xAA, 0x55, 0x07, 0x81, 0x01, word_of_int id_byte,
                word_of_int (max 0 (min 115 speed_rpm)),
                word_of_int (max 0 (min 255 accel_time)),
                word_of_int (calculate_checksum
                  [0xAA, 0x55, 0x07, 0x81, 0x01, word_of_int id_byte,
                   word_of_int (max 0 (min 115 speed_rpm)),
                   word_of_int (max 0 (min 255 accel_time))])]"
proof -
  have s: "bytes_of (max 0 (min 115 speed_rpm)) = Inr [word_of_int (max 0 (min 115 speed_rpm))]"
    using clamp_byte(1) [of speed_rpm] unfolding bytes_of_def by simp
  have a: "bytes_of (max 0 (min 255 accel_time)) = Inr [word_of_int (max 0 (min 255 accel_time))]"
    using clamp_byte(2) [of accel_time] unfolding bytes_of_def by simp
  have i: "bytes_of id_byte = Inr [word_of_int id_byte]"
    using assms by (simp add: bytes_of_def)
  show ?thesis
    unfolding create_speed_command_def Let_def s a i bind_err_def
    by (simp add: bytes_of_checksum)
qed

text \<open>
  C2, as amended: for a speed in [-50, 300], an acceleration time in [-10, 400] and an id
  in 0..255, \<open>create_speed_command\<close> returns a frame of exactly 9 bytes: the header
  \<open>AA 55\<close>, LEN \<open>07\<close>, TYPE \<open>81\<close>, SUBTYPE \<open>01\<close>, the id byte, the speed clamped to
  [0, 115], the acceleration time clamped to [0, 255], and as last byte
  \<open>calculate_checksum\<close> of the eight bytes before it, which is also
  \<open>calculate_checksum\<close> of the bytes at indices 2 to 7.
\<close>

theorem create_speed_command_layout:
  assumes "speed \<in> {-50..300}" and "accel \<in> {-10..400}" and "id_byte \<in> {0..255}"
  shows "\<exists>frame. create_speed_command speed accel id_byte = Inr frame \<and>
           length frame = 9 \<and> frame ! 0 = 0xAA \<and> frame ! 1 = 0x55 \<and>
           frame ! 2 = 0x07 \<and> frame ! 3 = 0x81 \<and> frame ! 4 = 0x01 \<and>
           uint (frame ! 5) = id_byte \<and>
           uint (frame ! 6) = max 0 (min 115 speed) \<and>
           uint (frame ! 7) = max 0 (min 255 accel) \<and>
           uint (frame ! 8) = calculate_checksum (take 8 frame) \<and>
           uint (frame ! 8) = calculate_checksum (take 6 (drop 2 frame))"
proof -
  from assms(3) have id: "0 \<le> id_byte" "id_byte < 256" by simp_all
  have i: "uint (word_of_int id_byte :: byte) = id_byte"
    using id by (rule uint_byte_of_int)
  have s: "uint (word_of_int (max 0 (min 115 speed)) :: byte) = max 0 (min 115 speed)"
    by (rule uint_byte_of_int) auto
  have a: "uint (word_of_int (max 0 (min 255 accel)) :: byte) = max 0 (min 255 accel)"
    by (rule uint_byte_of_int) auto
  let ?body = "[0x07, 0x81, 0x01, word_of_int id_byte, word_of_int (max 0 (min 115 speed)),
                word_of_int (max 0 (min 255 accel))] :: byte list"
  have same: "calculate_checksum ?body = calculate_checksum ([0xAA, 0x55] @ ?body)"
    by (simp add: calculate_checksum_sum)
  show ?thesis
    unfolding create_speed_command_frame [OF id]
    by (simp add: i s a uint_checksum_byte same)
qed

text \<open>The layout at a speed above and an acceleration time below the clamping range.\<close>

theorem create_speed_command_layout_witness:
  "(300::int) \<in> {-50..300} \<and> (-10::int) \<in> {-10..400} \<and> (4::int) \<in> {0..255} \<and>
   (\<exists>frame. create_speed_command 300 (-10) 4 = Inr frame \<and>
           length frame = 9 \<and> frame ! 0 = 0xAA \<and> frame ! 1 = 0x55 \<and>
           frame ! 2 = 0x07 \<and> frame ! 3 = 0x81 \<and> frame ! 4 = 0x01 \<and>
           uint (frame ! 5) = 4 \<and>
           uint (frame ! 6) = max 0 (min 115 300) \<and>
           uint (frame ! 7) = max 0 (min 255 (-10)) \<and>
           uint (frame ! 8) = calculate_checksum (take 8 frame) \<and>
           uint (frame ! 8) = calculate_checksum (take 6 (drop 2 frame)))"
proof -
  have s: "(300::int) \<in> {-50..300}" and a: "(-10::int) \<in> {-10..400}"
    and i: "(4::int) \<in> {0..255}" by simp_all
  from create_speed_command_layout [OF s a i] s a i show ?thesis by blast
qed

text \<open>
  At speed 70, acceleration time 10 and id 0 the frame is \<open>AA 55 07 81 01 00 46 0A D9\<close>:
  nine bytes, not ten.
\<close>

theorem create_speed_command_length_counterexample:
  "create_speed_command 70 10 0 = Inr [0xAA, 0x55, 0x07, 0x81, 0x01, 0x00, 0x46, 0x0A, 0xD9] \<and>
   map_sum id length (create_speed_command 70 10 0) \<noteq> Inr 10"
  by (simp add: create_speed_command_def bytes_of_def bind_err_def calculate_checksum_def)

section \<open>Properties of the decoder\<close>

text \<open>The decoder as one case distinction on the length and the leading bytes.\<close>

lemma take4_iff:
  "take 4 data = [a, b, c, d] \<longleftrightarrow>
     length data \<ge> 4 \<and> data ! 0 = a \<and> data ! 1 = b \<and> data ! 2 = c \<and> data ! 3 = d"
proof -
  have "take 4 data = [a, b, c, d] \<longleftrightarrow>
        length (take 4 data) = 4 \<and> (\<forall>i<4. take 4 data ! i = [a, b, c, d] ! i)"
    by (auto simp: list_eq_iff_nth_eq)
  also have "\<dots> \<longleftrightarrow> length data \<ge> 4 \<and> (\<forall>i<4. data ! i = [a, b, c, d] ! i)"
    by auto
  also have "\<dots> \<longleftrightarrow> length data \<ge> 4 \<and> data ! 0 = a \<and> data ! 1 = b \<and> data ! 2 = c \<and> data ! 3 = d"
    by (auto simp: eval_nat_numeral All_less_Suc)
  finally show ?thesis .
qed

lemma take5_iff:
  "take 5 data = [a, b, c, d, e] \<longleftrightarrow>
     length data \<ge> 5 \<and> data ! 0 = a \<and> data ! 1 = b \<and> data ! 2 = c \<and> data ! 3 = d \<and> data ! 4 = e"
proof -
  have "take 5 data = [a, b, c, d, e] \<longleftrightarrow>
        length (take 5 data) = 5 \<and> (\<forall>i<5. take 5 data ! i = [a, b, c, d, e] ! i)"
    by (auto simp: list_eq_iff_nth_eq)
  also have "\<dots> \<longleftrightarrow> length data \<ge> 5 \<and> (\<forall>i<5. data ! i = [a, b, c, d, e] ! i)"
    by auto
  also have "\<dots> \<longleftrightarrow> length data \<ge> 5 \<and> data ! 0 = a \<and> data ! 1 = b \<and> data ! 2 = c \<and> data ! 3 = d \<and> data ! 4 = e"
    by (auto simp: eval_nat_numeral All_less_Suc)
  finally show ?thesis .
qed

lemmas decode_defs = bind_err_def and_also_def or_else_def eq_at_def ne_at_def byte_at_def

lemma decode_response_eq:
  "decode_response data = Inr
     (if length data = 6 \<and> take 4 data = [0xAA, 0x55, 0x04, 0x80]
      then Some (Movement_Response (id_names_get (data ! 4)) (direction_codes_get (data ! 5)))
      else if length data = 8 \<and> take 5 data = [0xAA, 0x55, 0x07, 0x81, 0x01]
      then Some (Speed_Response (id_names_get (data ! 5)) (data ! 6) (data ! 7))
      else if length data = 8 \<and> take 5 data = [0xAA, 0x55, 0x07, 0x81, 0x02]
      then Some (Angle_Response (decode_angle_from_byte (data ! 6)) (data ! 6))
      else None)"
proof (cases "length data < 6")
  case True
  then show ?thesis by (simp add: decode_response_def)
next
  case False
  then show ?thesis
    unfolding decode_response_def take4_iff take5_iff Let_def decode_defs
    by auto
qed


lemma id_names_get_inj: "id_names_get a = id_names_get b \<Longrightarrow> a = b"
  by (auto simp: id_names_get_def id_names_def split: if_splits)

lemma direction_codes_get_inj:
  "a \<in> {1, 2, 3, 4, 5, 6} \<Longrightarrow> direction_codes_get b = direction_codes_get a \<Longrightarrow> b = a"
  by (auto simp: direction_codes_get_def direction_codes_def split: if_splits)

text \<open>
  C6, as amended: for every 6-byte input whose first two bytes are \<open>AA 55\<close>, whose LEN
  byte at index 2 is \<open>04\<close> and whose TYPE byte at index 3 is \<open>80\<close>, \<open>decode_response\<close>
  returns a movement response made of the name of the id byte at index 4 and the name of
  the direction byte at index 5. The id name determines the id byte; the direction name
  determines the direction byte when that byte is one of 1..6 (every other byte reads
  as the one unknown direction).
\<close>

theorem decode_response_movement:
  assumes "length data = 6" and "data ! 0 = 0xAA" and "data ! 1 = 0x55"
    and "data ! 2 = 0x04" and "data ! 3 = 0x80"
  shows "decode_response data =
           Inr (Some (Movement_Response (id_names_get (data ! 4))
                                        (direction_codes_get (data ! 5)))) \<and>
         (\<forall>b. id_names_get b = id_names_get (data ! 4) \<longrightarrow> b = data ! 4) \<and>
         (data ! 5 \<in> {1, 2, 3, 4, 5, 6} \<longrightarrow>
            (\<forall>b. direction_codes_get b = direction_codes_get (data ! 5) \<longrightarrow> b = data ! 5))"
proof -
  have "take 4 data = [0xAA, 0x55, 0x04, 0x80]"
    using assms by (simp add: take4_iff)
  then have "decode_response data =
           Inr (Some (Movement_Response (id_names_get (data ! 4))
                                        (direction_codes_get (data ! 5))))"
    using assms(1) by (simp add: decode_response_eq)
  then show ?thesis
    using id_names_get_inj direction_codes_get_inj by blast
qed

text \<open>A movement response for id 7, direction 2 (backward).\<close>

theorem decode_response_movement_witness:
  "length [0xAA, 0x55, 0x04, 0x80, 0x07, 0x02 :: byte] = 6 \<and>
   decode_response [0xAA, 0x55, 0x04, 0x80, 0x07, 0x02] =
     Inr (Some (Movement_Response (Id_Number 7) Backward_Ack))"
  using decode_response_movement [of "[0xAA, 0x55, 0x04, 0x80, 0x07, 0x02]"]
  by (simp add: id_names_get_def id_names_def direction_codes_get_def direction_codes_def)

text \<open>With LEN \<open>05\<close> in place of \<open>04\<close> the same six bytes are not decoded.\<close>

theorem decode_response_movement_len_counterexample:
  "decode_response [0xAA, 0x55, 0x05, 0x80, 0x01, 0x01] = Inr None"
  by (simp add: decode_response_eq)

text \<open>
  C7: \<open>decode_response\<close> returns \<open>None\<close> on every byte sequence that has fewer than 6
  bytes, or that does not start with \<open>AA 55\<close>, or whose LEN, TYPE and SUBTYPE bytes (at
  indices 2, 3 and 4) match none of the three response shapes (\<open>04 80\<close>, \<open>07 81 01\<close>,
  \<open>07 81 02\<close>); and on every byte sequence whatsoever it returns without raising.
\<close>

theorem decode_response_none:
  "(length data < 6 \<or> take 2 data \<noteq> [0xAA, 0x55] \<or>
    (6 \<le> length data \<and>
     \<not> (data ! 2 = 0x04 \<and> data ! 3 = 0x80) \<and>
     \<not> (data ! 2 = 0x07 \<and> data ! 3 = 0x81 \<and> data ! 4 = 0x01) \<and>
     \<not> (data ! 2 = 0x07 \<and> data ! 3 = 0x81 \<and> data ! 4 = 0x02))
      \<longrightarrow> decode_response data = Inr None) \<and>
   (\<exists>r. decode_response data = Inr r)"
  unfolding decode_response_eq take4_iff take5_iff take2_header_iff
  by auto

text \<open>A truncated input, a wrong header, and an unknown LEN.\<close>

theorem decode_response_none_witness:
  "length [0xAA, 0x55, 0x04 :: byte] < 6 \<and>
   decode_response [0xAA, 0x55, 0x04] = Inr None \<and>
   take 2 [0xAB, 0x55, 0x04, 0x80, 0x00, 0x01 :: byte] \<noteq> [0xAA, 0x55] \<and>
   decode_response [0xAB, 0x55, 0x04, 0x80, 0x00, 0x01] = Inr None \<and>
   decode_response [0xAA, 0x55, 0x09, 0x80, 0x00, 0x01] = Inr None"
  using decode_response_none [of "[0xAA, 0x55, 0x04]"]
    decode_response_none [of "[0xAB, 0x55, 0x04, 0x80, 0x00, 0x01]"]
    decode_response_none [of "[0xAA, 0x55, 0x09, 0x80, 0x00, 0x01]"]
  by simp

text \<open>
  C10: \<open>decode_response\<close> checks no checksum. Two inputs of equal length that agree on
  the bytes at indices 0 to 7 are decoded alike; whether an input is decoded at all
  depends only on its length and its first five bytes (header, LEN, TYPE, SUBTYPE); and
  the inputs that are decoded are exactly those of length 6 that start with
  \<open>AA 55 04 80\<close> and those of length 8 that start with \<open>AA 55 07 81 01\<close> or
  \<open>AA 55 07 81 02\<close>, so that every byte after the SUBTYPE is payload, whatever its value.
\<close>

theorem decode_response_no_checksum:
  "(length d1 = length d2 \<and> take 8 d1 = take 8 d2 \<longrightarrow>
      decode_response d1 = decode_response d2) \<and>
   (length d1 = length d2 \<and> take 5 d1 = take 5 d2 \<longrightarrow>
      (decode_response d1 = Inr None \<longleftrightarrow> decode_response d2 = Inr None)) \<and>
   (decode_response d \<noteq> Inr None \<longleftrightarrow>
      length d = 6 \<and> take 4 d = [0xAA, 0x55, 0x04, 0x80] \<or>
      length d = 8 \<and> take 5 d = [0xAA, 0x55, 0x07, 0x81, 0x01] \<or>
      length d = 8 \<and> take 5 d = [0xAA, 0x55, 0x07, 0x81, 0x02])"
proof (intro conjI impI)
  assume h: "length d1 = length d2 \<and> take 8 d1 = take 8 d2"
  show "decode_response d1 = decode_response d2"
  proof (cases "length d1 \<le> 8")
    case True
    from h have "length d2 = length d1" by simp
    with True have "take 8 d1 = d1" and "take 8 d2 = d2" by simp_all
    with h have "d1 = d2" by metis
    then show ?thesis by simp
  next
    case False
    with h show ?thesis by (simp add: decode_response_eq)
  qed
next
  assume h: "length d1 = length d2 \<and> take 5 d1 = take 5 d2"
  then have "take 4 (take 5 d1) = take 4 (take 5 d2)" by simp
  then have "take 4 d1 = take 4 d2" by simp
  with h show "decode_response d1 = Inr None \<longleftrightarrow> decode_response d2 = Inr None"
    by (simp add: decode_response_eq)
next
  show "decode_response d \<noteq> Inr None \<longleftrightarrow>
      length d = 6 \<and> take 4 d = [0xAA, 0x55, 0x04, 0x80] \<or>
      length d = 8 \<and> take 5 d = [0xAA, 0x55, 0x07, 0x81, 0x01] \<or>
      length d = 8 \<and> take 5 d = [0xAA, 0x55, 0x07, 0x81, 0x02]"
    by (simp add: decode_response_eq)
qed

text \<open>
  Two 9-byte inputs that differ in the last byte only, and two accepted 8-byte speed
  responses with different payloads.
\<close>

theorem decode_response_no_checksum_witness:
  "decode_response [0xAA, 0x55, 0x07, 0x81, 0x01, 0x00, 0x46, 0x0A, 0xD9] =
     decode_response [0xAA, 0x55, 0x07, 0x81, 0x01, 0x00, 0x46, 0x0A, 0x00] \<and>
   (decode_response [0xAA, 0x55, 0x07, 0x81, 0x01, 0x00, 0x46, 0x0A] = Inr None \<longleftrightarrow>
      decode_response [0xAA, 0x55, 0x07, 0x81, 0x01, 0x04, 0x63, 0xC8] = Inr None) \<and>
   decode_response [0xAA, 0x55, 0x07, 0x81, 0x01, 0x04, 0x63, 0xC8] \<noteq> Inr None"
  using decode_response_no_checksum
      [of "[0xAA, 0x55, 0x07, 0x81, 0x01, 0x00, 0x46, 0x0A, 0xD9]"
          "[0xAA, 0x55, 0x07, 0x81, 0x01, 0x00, 0x46, 0x0A, 0x00]"
          "[0xAA, 0x55, 0x07, 0x81, 0x01, 0x04, 0x63, 0xC8]"]
    decode_response_no_checksum
      [of "[0xAA, 0x55, 0x07, 0x81, 0x01, 0x00, 0x46, 0x0A]"
          "[0xAA, 0x55, 0x07, 0x81, 0x01, 0x04, 0x63, 0xC8]"
          "[0xAA, 0x55, 0x07, 0x81, 0x01, 0x04, 0x63, 0xC8]"]
  by simp

section \<open>Encoding, then decoding\<close>

text \<open>
  A command frame ends in its checksum byte; the decoder accepts the response shapes,
  which are the same bytes without it (6 and 8 bytes). \<open>butlast\<close> removes the checksum.
\<close>

lemma clamp_angle_finite:
  "\<exists>r. py_max (Finite 0) (py_min (Finite 180) x) = Finite r \<and> 0 \<le> r \<and> r \<le> 180 \<and>
       (\<forall>r0. x = Finite r0 \<longrightarrow> r = max 0 (min 180 r0))"
  by (cases x) (auto simp: py_max_def py_min_def)

lemma floor_byte_range: "0 \<le> r \<Longrightarrow> r \<le> 180 \<Longrightarrow> 0 \<le> \<lfloor>r :: real\<rfloor> \<and> \<lfloor>r\<rfloor> \<le> 180"
  by (simp add: floor_le_iff le_floor_iff)

lemma create_angle_command_frame:
  assumes "float_of angle = Inr x"
    and "py_max (Finite 0) (py_min (Finite 180) x) = Finite r"
    and "0 \<le> r" and "r \<le> 180"
    and "0 \<le> id_byte" and "id_byte < 256"
  shows "create_angle_command angle id_byte =
           Inr [0xAA, 0x55, 0x07, 0x81, 0x02, word_of_int id_byte,
                word_of_int \<lfloor>r\<rfloor>, 0x00,
                word_of_int (calculate_checksum
                  [0xAA, 0x55, 0x07, 0x81, 0x02, word_of_int id_byte,
                   word_of_int \<lfloor>r\<rfloor>, 0x00])]"
proof -
  from floor_byte_range [OF assms(3,4)] have f: "0 \<le> \<lfloor>r\<rfloor>" "\<lfloor>r\<rfloor> \<le> 180" by simp_all
  then have m: "max 0 (min 255 \<lfloor>r\<rfloor>) = \<lfloor>r\<rfloor>" by simp
  have a: "bytes_of \<lfloor>r\<rfloor> = Inr [word_of_int \<lfloor>r\<rfloor>]"
    using f by (simp add: bytes_of_def)
  have i: "bytes_of id_byte = Inr [word_of_int id_byte]"
    using assms(5,6) by (simp add: bytes_of_def)
  show ?thesis
    using assms(3)
    by (simp add: create_angle_command_def assms(1,2) bind_err_def Let_def m a i
        bytes_of_checksum)
qed

lemma unat_byte_of_int: "0 \<le> x \<Longrightarrow> x < 256 \<Longrightarrow> unat (word_of_int x :: byte) = nat x"
  using uint_byte_of_int [of x] by (simp add: unat_eq_nat_uint)

lemma speed_round_trip:
  assumes id: "0 \<le> id_byte" "id_byte < 256"
  shows "bind_err (create_speed_command s a id_byte) (\<lambda>frame. decode_response (butlast frame))
              = Inr (Some (Speed_Response (id_names_get (word_of_int id_byte))
                      (word_of_int (max 0 (min 115 s))) (word_of_int (max 0 (min 255 a)))))"
  unfolding create_speed_command_frame [OF id] bind_err_def
  by (simp add: decode_response_eq)

lemma angle_round_trip:
  assumes "float_of angle = Inr x"
    and "py_max (Finite 0) (py_min (Finite 180) x) = Finite r"
    and "0 \<le> r" and "r \<le> 180"
    and "0 \<le> id_byte" and "id_byte < 256"
  shows "bind_err (create_angle_command angle id_byte) (\<lambda>frame. decode_response (butlast frame))
           = Inr (Some (Angle_Response (real_of_int \<lfloor>r\<rfloor>) (word_of_int \<lfloor>r\<rfloor>)))"
proof -
  from floor_byte_range [OF assms(3,4)] have f: "0 \<le> \<lfloor>r\<rfloor>" "\<lfloor>r\<rfloor> < 256" by simp_all
  have n: "unat (word_of_int \<lfloor>r\<rfloor> :: byte) = nat \<lfloor>r\<rfloor>"
    using f by (rule unat_byte_of_int)
  have "real (nat \<lfloor>r\<rfloor>) = real_of_int \<lfloor>r\<rfloor>"
    using f(1) by simp
  then have "decode_angle_from_byte (word_of_int \<lfloor>r\<rfloor>) = real_of_int \<lfloor>r\<rfloor>"
    unfolding decode_angle_from_byte_def n by simp
  then show ?thesis
    unfolding create_angle_command_frame [OF assms] bind_err_def
    by (simp add: decode_response_eq)
qed

lemma movement_round_trip:
  assumes d: "direction \<in> {1..6}" and id: "0 \<le> id_byte" "id_byte < 256"
  shows "bind_err (create_movement_command direction id_byte)
                (\<lambda>frame. case frame of None \<Rightarrow> Inr None
                          | Some frame \<Rightarrow> decode_response (butlast frame))
              = Inr (Some (Movement_Response (id_names_get (word_of_int id_byte))
                            (direction_codes_get (word_of_int direction))))"
  unfolding create_movement_command_frame [OF d id] bind_err_def
  by (simp add: decode_response_eq)

lemma direction_byte_known:
  assumes "direction \<in> {1..6}"
  shows "(word_of_int direction :: byte) \<in> {1, 2, 3, 4, 5, 6}"
proof -
  from assms have "direction = 1 \<or> direction = 2 \<or> direction = 3 \<or>
                 direction = 4 \<or> direction = 5 \<or> direction = 6"
    by auto
  then show ?thesis by auto
qed

text \<open>
  C3, as amended: for every speed \<open>s\<close>, acceleration time \<open>a\<close> and id byte \<open>i\<close>, feeding
  the output of \<open>create_speed_command(s, a, i)\<close> without its trailing checksum byte
  through \<open>decode_response\<close> gives a speed response with the speed clamped to [0, 115],
  the acceleration time clamped to [0, 255] and the name of \<open>i\<close>, which determines
  \<open>i\<close>. The same holds for the angle frame of every angle that \<open>float\<close> accepts
  (every float, and every integer short of the overflow of \<open>float\<close>): with \<open>r\<close> the
  angle as clamped by the code's \<open>max(0.0, min(180.0, x))\<close>, which for a finite angle
  is the angle clamped to [0, 180], the response carries \<open>r\<close> truncated to a whole
  number, as degrees and as byte. And it holds for the movement frame of a direction in
  1..6: the response carries the name of the id and the name of the direction, which
  determines the direction.
\<close>

theorem decode_response_round_trip:
  assumes "id_byte \<in> {0..255}"
  shows "(\<exists>speed accel.
            bind_err (create_speed_command s a id_byte) (\<lambda>frame. decode_response (butlast frame))
              = Inr (Some (Speed_Response (id_names_get (word_of_int id_byte)) speed accel)) \<and>
            uint speed = max 0 (min 115 s) \<and> uint accel = max 0 (min 255 a)) \<and>
         (float_of angle = Inr x \<longrightarrow>
            (\<exists>r angle_byte.
              py_max (Finite 0) (py_min (Finite 180) x) = Finite r \<and>
              (\<forall>r0. x = Finite r0 \<longrightarrow> r = max 0 (min 180 r0)) \<and>
              bind_err (create_angle_command angle id_byte)
                  (\<lambda>frame. decode_response (butlast frame))
                = Inr (Some (Angle_Response (real_of_int \<lfloor>r\<rfloor>) angle_byte)) \<and>
              uint angle_byte = \<lfloor>r\<rfloor>)) \<and>
         (direction \<in> {1..6} \<longrightarrow>
            bind_err (create_movement_command direction id_byte)
                (\<lambda>frame. case frame of None \<Rightarrow> Inr None
                          | Some frame \<Rightarrow> decode_response (butlast frame))
              = Inr (Some (Movement_Response (id_names_get (word_of_int id_byte))
                            (direction_codes_get (word_of_int direction)))) \<and>
            (\<forall>b. direction_codes_get b = direction_codes_get (word_of_int direction)
                   \<longrightarrow> b = word_of_int direction)) \<and>
         (\<forall>b. id_names_get b = id_names_get (word_of_int id_byte) \<longrightarrow> b = word_of_int id_byte)"
proof (intro conjI impI allI)
  from assms have id: "0 \<le> id_byte" "id_byte < 256" by simp_all
  have s: "uint (word_of_int (max 0 (min 115 s)) :: byte) = max 0 (min 115 s)"
    by (rule uint_byte_of_int) auto
  have a: "uint (word_of_int (max 0 (min 255 a)) :: byte) = max 0 (min 255 a)"
    by (rule uint_byte_of_int) auto
  show "\<exists>speed accel.
            bind_err (create_speed_command s a id_byte) (\<lambda>frame. decode_response (butlast frame))
              = Inr (Some (Speed_Response (id_names_get (word_of_int id_byte)) speed accel)) \<and>
            uint speed = max 0 (min 115 s) \<and> uint accel = max 0 (min 255 a)"
    by (intro exI conjI) (rule speed_round_trip [OF id] s a)+
  show "\<exists>r angle_byte.
              py_max (Finite 0) (py_min (Finite 180) x) = Finite r \<and>
              (\<forall>r0. x = Finite r0 \<longrightarrow> r = max 0 (min 180 r0)) \<and>
              bind_err (create_angle_command angle id_byte)
                  (\<lambda>frame. decode_response (butlast frame))
                = Inr (Some (Angle_Response (real_of_int \<lfloor>r\<rfloor>) angle_byte)) \<and>
              uint angle_byte = \<lfloor>r\<rfloor>"
    if fl: "float_of angle = Inr x"
  proof -
    from clamp_angle_finite [of x] obtain r
      where r: "py_max (Finite 0) (py_min (Finite 180) x) = Finite r"
        and lo: "0 \<le> r" and hi: "r \<le> 180"
        and fin: "\<forall>r0. x = Finite r0 \<longrightarrow> r = max 0 (min 180 r0)"
      by (elim exE conjE)
    from floor_byte_range [OF lo hi] have "0 \<le> \<lfloor>r\<rfloor>" and "\<lfloor>r\<rfloor> < 256" by simp_all
    then have u: "uint (word_of_int \<lfloor>r\<rfloor> :: byte) = \<lfloor>r\<rfloor>"
      by (rule uint_byte_of_int)
    show ?thesis
      by (intro exI conjI) (rule r fin angle_round_trip [OF fl r lo hi id] u)+
  qed
  show "bind_err (create_movement_command direction id_byte)
                (\<lambda>frame. case frame of None \<Rightarrow> Inr None
                          | Some frame \<Rightarrow> decode_response (butlast frame))
              = Inr (Some (Movement_Response (id_names_get (word_of_int id_byte))
                            (direction_codes_get (word_of_int direction))))"
    if "direction \<in> {1..6}"
    by (rule movement_round_trip [OF that id])
  show "b = word_of_int direction"
    if "direction \<in> {1..6}"
      and "direction_codes_get b = direction_codes_get (word_of_int direction)" for b
    using direction_codes_get_inj [OF direction_byte_known [OF that(1)] that(2)] .
  show "b = word_of_int id_byte"
    if "id_names_get b = id_names_get (word_of_int id_byte)" for b
    using id_names_get_inj [OF that] .
qed

text \<open>
  The three round trips at id 3: speed 300 with acceleration time -5, the angle 90.7
  (which is truncated to 90, not rounded to 91), and direction 2.
\<close>

theorem decode_response_round_trip_witness:
  "(3::int) \<in> {0..255} \<and>
   float_of (Py_Float (Finite (907 / 10))) = Inr (Finite (907 / 10)) \<and>
   (2::int) \<in> {1..6} \<and>
   bind_err (create_speed_command 300 (-5) 3) (\<lambda>frame. decode_response (butlast frame))
     = Inr (Some (Speed_Response Hub3 115 0)) \<and>
   bind_err (create_angle_command (Py_Float (Finite (907 / 10))) 3)
       (\<lambda>frame. decode_response (butlast frame))
     = Inr (Some (Angle_Response 90 90)) \<and>
   bind_err (create_movement_command 2 3)
       (\<lambda>frame. case frame of None \<Rightarrow> Inr None
                 | Some frame \<Rightarrow> decode_response (butlast frame))
     = Inr (Some (Movement_Response Hub3 Backward_Ack))"
proof -
  have i: "(3::int) \<in> {0..255}" by simp
  have f: "float_of (Py_Float (Finite (907 / 10))) = Inr (Finite (907 / 10))" by simp
  have d: "(2::int) \<in> {1..6}" by simp
  note rt = decode_response_round_trip
              [OF i, of 300 "-5" "Py_Float (Finite (907 / 10))" "Finite (907 / 10)" 2]
  have hub: "id_names_get (word_of_int 3) = Hub3"
    by (simp add: id_names_get_def id_names_def)
  have bwd: "direction_codes_get (word_of_int 2) = Backward_Ack"
    by (simp add: direction_codes_get_def direction_codes_def)
  from rt [THEN conjunct1] obtain speed accel :: byte
    where sp: "bind_err (create_speed_command 300 (-5) 3)
                 (\<lambda>frame. decode_response (butlast frame))
               = Inr (Some (Speed_Response (id_names_get (word_of_int 3)) speed accel))"
      and "uint speed = max 0 (min 115 300)" and "uint accel = max 0 (min 255 (-5))"
    by (elim exE conjE)
  then have "uint speed = uint (115 :: byte)" and "uint accel = uint (0 :: byte)"
    by simp_all
  then have "speed = 115" and "accel = 0"
    by (simp_all add: word_uint_eq_iff)
  with sp hub have speed_ok:
    "bind_err (create_speed_command 300 (-5) 3) (\<lambda>frame. decode_response (butlast frame))
       = Inr (Some (Speed_Response Hub3 115 0))"
    by simp
  from rt [THEN conjunct2, THEN conjunct1, THEN mp, OF f] obtain r :: real and angle_byte :: byte
    where fin: "\<forall>r0. Finite (907 / 10) = Finite r0 \<longrightarrow> r = max 0 (min 180 r0)"
      and an: "bind_err (create_angle_command (Py_Float (Finite (907 / 10))) 3)
                 (\<lambda>frame. decode_response (butlast frame))
               = Inr (Some (Angle_Response (real_of_int \<lfloor>r\<rfloor>) angle_byte))"
      and ub: "uint angle_byte = \<lfloor>r\<rfloor>"
    by (elim exE conjE)
  have rv: "r = max 0 (min 180 (907 / 10))"
    by (rule fin [rule_format, OF refl])
  have "\<lfloor>max 0 (min 180 (907 / 10 :: real))\<rfloor> = 90"
    by simp
  then have fl: "\<lfloor>r\<rfloor> = 90"
    unfolding rv .
  with ub have "uint angle_byte = uint (90 :: byte)" by simp
  then have "angle_byte = 90" by (simp add: word_uint_eq_iff)
  with an fl have angle_ok:
    "bind_err (create_angle_command (Py_Float (Finite (907 / 10))) 3)
       (\<lambda>frame. decode_response (butlast frame))
     = Inr (Some (Angle_Response 90 90))"
    by simp
  from rt [THEN conjunct2, THEN conjunct2, THEN conjunct1, THEN mp, OF d, THEN conjunct1]
    hub bwd
  have movement_ok:
    "bind_err (create_movement_command 2 3)
       (\<lambda>frame. case frame of None \<Rightarrow> Inr None
                 | Some frame \<Rightarrow> decode_response (butlast frame))
     = Inr (Some (Movement_Response Hub3 Backward_Ack))"
    by simp
  from i f d speed_ok angle_ok movement_ok show ?thesis
    by (intro conjI)
qed

text \<open>
  The 9-byte output of the speed encoder itself, checksum included, is not decoded.
\<close>

theorem decode_response_round_trip_counterexample:
  "create_speed_command 70 10 1 = Inr [0xAA, 0x55, 0x07, 0x81, 0x01, 0x01, 0x46, 0x0A, 0xDA] \<and>
   decode_response [0xAA, 0x55, 0x07, 0x81, 0x01, 0x01, 0x46, 0x0A, 0xDA] = Inr None"
  by (simp add: create_speed_command_def bytes_of_def bind_err_def calculate_checksum_def
      decode_response_eq)

section \<open>Properties of the TCP client\<close>

lemma disconnect_socket: "socket (fst (disconnect close_outcome cw)) = None"
  by (cases cw) (simp add: disconnect_def Let_def split: option.splits outcome.splits)

lemma send_data_no_socket:
  "socket (fst cw) = None \<Longrightarrow> send_data sendall_outcome data_bytes cw = ((False, Msg_Not_Connected), cw)"
  by (cases cw) (simp add: send_data_def)

text \<open>
  C8: after \<open>disconnect\<close>, from any state of the client, a call of \<open>send_data\<close> with any
  bytes returns \<open>(False, not connected)\<close> and leaves the client and the trace as
  \<open>disconnect\<close> left them: nothing is done on the socket and the connection state does
  not change. Hence the same holds after any sequence of further calls of \<open>send_data\<close>.
\<close>

theorem send_data_after_disconnect:
  "send_data sendall_outcome data_bytes (disconnect close_outcome cw)
     = ((False, Msg_Not_Connected), disconnect close_outcome cw) \<and>
   fold (\<lambda>(out, d) cw'. snd (send_data out d cw')) sends (disconnect close_outcome cw)
     = disconnect close_outcome cw"
proof
  show one: "send_data sendall_outcome data_bytes (disconnect close_outcome cw)
     = ((False, Msg_Not_Connected), disconnect close_outcome cw)"
    for sendall_outcome data_bytes
    by (rule send_data_no_socket) (rule disconnect_socket)
  show "fold (\<lambda>(out, d) cw'. snd (send_data out d cw')) sends (disconnect close_outcome cw)
     = disconnect close_outcome cw"
    by (induction sends) (simp_all add: one split: prod.splits)
qed

text \<open>A connected client is disconnected, then asked to send a movement frame.\<close>

theorem send_data_after_disconnect_witness:
  "send_data (Returns ()) [0xAA, 0x55, 0x04, 0x80, 0x00, 0x01, 0x85]
     (disconnect (Returns ())
       (\<lparr>socket = Some 7, is_connected = True, receive_thread = Some (Thread 1),
         receive_callback = None, host = ''192.168.0.12'', port = 12345\<rparr>,
        [Create 7]))
   = ((False, Msg_Not_Connected),
      \<lparr>socket = None, is_connected = False, receive_thread = Some (Thread 1),
        receive_callback = None, host = ''192.168.0.12'', port = 12345\<rparr>,
      [Create 7, Close 7])"
  using send_data_after_disconnect
    [of "Returns ()" "[0xAA, 0x55, 0x04, 0x80, 0x00, 0x01, 0x85]" "Returns ()"
        "(\<lparr>socket = Some 7, is_connected = True, receive_thread = Some (Thread 1),
           receive_callback = None, host = ''192.168.0.12'', port = 12345\<rparr>,
          [Create 7])" "[]"]
  by (simp add: disconnect_def)

subsection \<open>The receive loop assigns no field of the client\<close>

lemma loop_body_client: "fst (snd (loop_body env (c, w))) = c"
  by (simp add: loop_body_def split: option.splits outcome.splits)

lemma loop_body_control:
  "fst (loop_body env (c, w)) = fst (loop_body env (c, w'))"
  by (simp add: loop_body_def split: option.splits outcome.splits)

lemma receive_loop_client:
  "receive_loop envs (c, w) = Some (c', w') \<Longrightarrow> c' = c"
proof (induction envs arbitrary: w)
  case Nil
  then show ?case by (simp split: if_splits)
next
  case (Cons env envs)
  obtain ctl w1 where b: "loop_body env (c, w) = (ctl, c, w1)"
    using loop_body_client [of env c w] by (cases "loop_body env (c, w)") auto
  show ?case
  proof (cases "is_connected c \<and> socket c \<noteq> None")
    case False
    with Cons.prems show ?thesis by (auto split: if_splits)
  next
    case True
    show ?thesis
    proof (cases ctl)
      case Continue
      with True b Cons.prems have "receive_loop envs (c, w1) = Some (c', w')" by auto
      then show ?thesis by (rule Cons.IH)
    next
      case Break
      with True b Cons.prems show ?thesis by auto
    qed
  qed
qed

lemma loop_body_read_error:
  "socket c = Some s \<Longrightarrow> recv_outcome env = Raises e \<Longrightarrow> \<not> is_timeout e \<Longrightarrow>
   loop_body env (c, w) = (Break, c, w @ [Recv s 1024])"
  by (simp add: loop_body_def after_exception_def)

lemma receive_loop_exits_after:
  assumes "is_connected c" and "socket c = Some s"
    and "recv_outcome env = Raises e" and "\<not> is_timeout e"
    and "\<forall>p \<in> set prefix. fst (loop_body p (c, [])) = Continue"
  shows "\<exists>w'. receive_loop (prefix @ env # envs) (c, w) = Some (c, w')"
  using assms(5)
proof (induction prefix arbitrary: w)
  case Nil
  show ?case using assms(1-4) by (simp add: loop_body_read_error)
next
  case (Cons p prefix)
  obtain ctl w1 where b: "loop_body p (c, w) = (ctl, c, w1)"
    using loop_body_client [of p c w] by (cases "loop_body p (c, w)") auto
  from Cons.prems have "fst (loop_body p (c, [])) = Continue" by simp
  with b loop_body_control [of p c w "[]"] have "ctl = Continue" by simp
  moreover from Cons.prems have "\<exists>w'. receive_loop (prefix @ env # envs) (c, w1) = Some (c, w')"
    by (intro Cons.IH) simp
  ultimately show ?case using assms(1,2) b by simp
qed

lemma connect_keeps_connected:
  "is_connected c \<Longrightarrow> is_connected (fst (snd (connect env h p (c, w))))"
  by (simp add: connect_def Let_def split: outcome.splits)

text \<open>
  C9: when a pass of \<open>_receive_loop\<close> meets a read error that is not a timeout (after any
  number of passes that continue), the loop ends, and the client is as it was, so
  \<open>is_connected\<close> is still set. No pass of the loop body changes the client, and whenever
  the loop ends the client is the one it started with. Of the other methods, \<open>connect\<close>
  and \<open>set_callback\<close> never clear \<open>is_connected\<close>: only \<open>send_data\<close> and \<open>disconnect\<close>
  assign \<open>False\<close> to it.
\<close>

theorem receive_loop_leaves_is_connected:
  "(is_connected c \<and> socket c = Some s \<and> recv_outcome env = Raises e \<and> \<not> is_timeout e \<and>
      (\<forall>p \<in> set prefix. fst (loop_body p (c, [])) = Continue)
      \<longrightarrow> (\<exists>w'. receive_loop (prefix @ env # envs) (c, w) = Some (c, w'))) \<and>
   fst (snd (loop_body env (c, w))) = c \<and>
   (receive_loop script (c, w) = Some (c', w') \<longrightarrow> c' = c) \<and>
   (is_connected c \<longrightarrow> is_connected (fst (snd (connect cenv h p (c, w))))) \<and>
   is_connected (set_callback cb c) = is_connected c"
  using receive_loop_exits_after [of c s env e prefix envs w] loop_body_client [of env c w]
    receive_loop_client [of script c w c' w'] connect_keeps_connected [of c cenv h p w]
  by (simp add: set_callback_def)


text \<open>
  A connected client whose loop sees a timeout, then two bytes, then a connection reset.
\<close>

theorem receive_loop_leaves_is_connected_witness:
  "is_connected \<lparr>socket = Some 7, is_connected = True, receive_thread = Some (Thread 1),
      receive_callback = Some (Callback_Fn 0), host = ''192.168.0.12'', port = 12345\<rparr> \<and>
   \<not> is_timeout (Other_Exception ''reset'') \<and>
   (\<exists>w'. receive_loop
       [\<lparr>recv_outcome = Raises (Socket_Timeout ''timed out''), callback_outcome = Returns ()\<rparr>,
        \<lparr>recv_outcome = Returns [0xAA, 0x55], callback_outcome = Returns ()\<rparr>,
        \<lparr>recv_outcome = Raises (Other_Exception ''reset''), callback_outcome = Returns ()\<rparr>]
       (\<lparr>socket = Some 7, is_connected = True, receive_thread = Some (Thread 1),
          receive_callback = Some (Callback_Fn 0), host = ''192.168.0.12'', port = 12345\<rparr>, [])
     = Some (\<lparr>socket = Some 7, is_connected = True, receive_thread = Some (Thread 1),
          receive_callback = Some (Callback_Fn 0), host = ''192.168.0.12'', port = 12345\<rparr>, w'))"
proof -
  let ?c = "\<lparr>socket = Some 7, is_connected = True, receive_thread = Some (Thread 1),
      receive_callback = Some (Callback_Fn 0), host = ''192.168.0.12'', port = 12345\<rparr>"
  let ?t = "\<lparr>recv_outcome = Raises (Socket_Timeout ''timed out''), callback_outcome = Returns ()\<rparr>"
  let ?d = "\<lparr>recv_outcome = Returns [0xAA, 0x55 :: byte], callback_outcome = Returns ()\<rparr>"
  let ?e = "\<lparr>recv_outcome = Raises (Other_Exception ''reset''), callback_outcome = Returns ()\<rparr>"
  have h: "is_connected ?c \<and> socket ?c = Some 7 \<and>
           recv_outcome ?e = Raises (Other_Exception ''reset'') \<and>
           \<not> is_timeout (Other_Exception ''reset'') \<and>
           (\<forall>p \<in> set [?t, ?d]. fst (loop_body p (?c, [])) = Continue)"
    by (simp add: loop_body_def after_exception_def)
  from receive_loop_leaves_is_connected
         [where c = ?c and s = 7 and env = ?e and e = "Other_Exception ''reset''"
            and prefix = "[?t, ?d]" and envs = "[]" and w = "[]",
          THEN conjunct1, THEN mp, OF h]
  have "\<exists>w'. receive_loop ([?t, ?d] @ [?e]) (?c, []) = Some (?c, w')" .
  then show ?thesis by simp
qed

end
